theory Spec2Isabelle
  imports Complex_Main
begin

section \<open>The notebook uranium-236.ipynb: regridding simulated Uranium 236 to a DGGS\<close>

text \<open>
  The repository is one notebook. Its own logic is the cell that derives the HEALPix
  level and the cell count from \<open>nside\<close>, and the cells that squeeze the regridded
  field and write it to a zarr store. The three utilities it imports from the module
  \<open>data_handling\<close> are not among the sources.
\<close>

subsection \<open>Python values and errors\<close>

datatype py_error = TypeError | ValueError | OverflowError | AttributeError

text \<open>
  A double as \<open>np.log2\<close> returns it: a finite value, minus infinity (the logarithm of
  zero) or not-a-number (the logarithm of a negative number).
\<close>

datatype np_float = Finite real | NegInf | NaN

subsection \<open>Cell 27: level and number of cells\<close>

text \<open>
  A double is written as the real number it holds. \<open>to_double\<close> rounds a real to the
  nearest double: 53 significant bits, ties to the even significand. With
  \<open>e = floor (log2 |x|)\<close> the doubles around \<open>x\<close> are the multiples of
  \<open>2^(e - 52)\<close>. The exponent range of doubles is left out: every value rounded here is
  zero or lies between 1 and \<open>2^64\<close>.
\<close>

definition round_half_even :: "real \<Rightarrow> int" where
  "round_half_even x =
     (let f = \<lfloor>x\<rfloor>; r = x - real_of_int f
      in if r < 1 / 2 then f
         else if 1 / 2 < r then f + 1
         else if even f then f
         else f + 1)"

definition to_double :: "real \<Rightarrow> real" where
  "to_double x =
     (if x = 0 then 0
      else (let e = \<lfloor>log 2 \<bar>x\<bar>\<rfloor>;
                ulp = 2 powr (real_of_int e - 52)
            in real_of_int (round_half_even (x / ulp)) * ulp))"

text \<open>
  \<^verbatim>\<open>healpy_grid_level = int(np.log2(nside))\<close>

  \<open>np.log2\<close> first turns its argument into an array. A Python int within the range of
  int64 or uint64 becomes a machine integer; a Python int outside
  \<open>-2^63 .. 2^64 - 1\<close> becomes an array of dtype object, for which \<open>log2\<close> has no loop:
  numpy raises TypeError ("loop of ufunc does not support argument 0 of type int").
  The machine integer is converted to a double, which rounds it once it has more than
  53 bits, and the logarithm is computed in doubles: its result is the logarithm of
  that double, rounded to a double again (the library's \<open>log2\<close> taken as correctly
  rounded).
\<close>

definition np_log2 :: "int \<Rightarrow> py_error + np_float" where
  "np_log2 n =
     (if n < - (2 ^ 63) \<or> 2 ^ 64 \<le> n then Inl TypeError
      else if n < 0 then Inr NaN
      else if n = 0 then Inr NegInf
      else Inr (Finite (to_double (log 2 (to_double (real_of_int n))))))"

text \<open>
  Python's \<open>int()\<close> of a float truncates toward zero; of an infinity it raises
  OverflowError, of a NaN ValueError.
\<close>

fun py_int :: "np_float \<Rightarrow> py_error + int" where
  "py_int (Finite x) = Inr (if 0 \<le> x then \<lfloor>x\<rfloor> else \<lceil>x\<rceil>)"
| "py_int NegInf = Inl OverflowError"
| "py_int NaN = Inl ValueError"

definition healpy_grid_level :: "int \<Rightarrow> py_error + int" where
  "healpy_grid_level nside =
     (case np_log2 nside of Inl e \<Rightarrow> Inl e | Inr x \<Rightarrow> py_int x)"

text \<open>\<^verbatim>\<open>number_of_cells = 12 * nside**2\<close>, on Python's unbounded integers.\<close>

definition number_of_cells :: "int \<Rightarrow> int" where
  "number_of_cells nside = 12 * nside ^ 2"

subsection \<open>Labelled arrays (xarray)\<close>

text \<open>
  A coordinate is an array of labels along some of the dimensions of the array it
  belongs to; a coordinate with no dimension is a scalar coordinate.
\<close>

record 'a coordinate =
  coord_dims :: "string list"
  coord_values :: "'a list"

text \<open>
  A DataArray: its name, its dimensions with their lengths in axis order (xarray's
  \<open>sizes\<close>), its values in row-major order, and its coordinates by name.
\<close>

record 'a data_array =
  array_name :: string
  sizes :: "(string \<times> nat) list"
  data :: "'a list"
  coords :: "(string \<times> 'a coordinate) list"

text \<open>A Dataset: its data variables by name, in order.\<close>

type_synonym 'a dataset = "(string \<times> 'a data_array) list"

text \<open>
  \<open>squeeze()\<close> with no argument, as xarray writes it:
  \<^verbatim>\<open>
  dims = [d for d, s in xarray_obj.sizes.items() if s == 1]
  return self.isel(drop=False, **{d: 0 for d in dims})
  \<close>
  Indexing a dimension of length one at 0 takes that dimension away from the array and
  from every coordinate that had it; the values stay what they were, and the coordinate
  stays as a scalar coordinate (\<open>drop=False\<close>).
\<close>

definition get_squeeze_dims :: "'a data_array \<Rightarrow> string list" where
  "get_squeeze_dims a = map fst (filter (\<lambda>(d, s). s = 1) (sizes a))"

definition isel_zero :: "string list \<Rightarrow> 'a data_array \<Rightarrow> 'a data_array" where
  "isel_zero ds a =
     a\<lparr>sizes := filter (\<lambda>(d, s). d \<notin> set ds) (sizes a),
       coords := map (\<lambda>(c, x). (c, x\<lparr>coord_dims := filter (\<lambda>d. d \<notin> set ds) (coord_dims x)\<rparr>))
                   (coords a)\<rparr>"

definition squeeze :: "'a data_array \<Rightarrow> 'a data_array" where
  "squeeze a = isel_zero (get_squeeze_dims a) a"

text \<open>\<open>compute()\<close> loads the values into memory: the array is the same.\<close>

definition compute :: "'a data_array \<Rightarrow> 'a data_array" where
  "compute a = a"

subsection \<open>The zarr store\<close>

text \<open>
  The file system as far as the notebook writes it: what is stored under each path.
  \<open>to_zarr(path, mode="w")\<close> replaces whatever the path held.
\<close>

type_synonym 'a zarr_store = "string \<rightharpoonup> 'a data_array"

definition to_zarr :: "'a data_array \<Rightarrow> string \<Rightarrow> 'a zarr_store \<Rightarrow> 'a zarr_store" where
  "to_zarr a path fs = fs(path \<mapsto> a)"

text \<open>Python's \<open>str\<close> of an int, as the f-string formats the level.\<close>

fun digits :: "nat \<Rightarrow> string" where
  "digits n =
     (if n < 10 then [''0123456789'' ! n]
      else digits (n div 10) @ [''0123456789'' ! (n mod 10)])"

declare digits.simps [simp del]

definition py_str :: "int \<Rightarrow> string" where
  "py_str i = (if i < 0 then CHR ''-'' # digits (nat (- i)) else digits (nat i))"

text \<open>
  \<^verbatim>\<open>data_path = Path("./CS1-nird/data/")\<close>
  \<^verbatim>\<open>save_location = data_path / f"U236GF-healpix-lvl-{healpy_grid_level}.zarr"\<close>
\<close>

definition save_location :: "int \<Rightarrow> string" where
  "save_location level = ''CS1-nird/data/U236GF-healpix-lvl-'' @ py_str level @ ''.zarr''"

subsection \<open>Cells 29 to 32: squeeze and save\<close>

text \<open>
  \<^verbatim>\<open>
  ds_regridded = regridded.U236GF.compute().squeeze()
  ds_regridded.dggs.explore()
  save_location = data_path / f"U236GF-healpix-lvl-{healpy_grid_level}.zarr"
  ds_regridded.to_zarr(save_location, mode="w")
  \<close>
  \<open>regridded\<close> is what \<open>regrid_to_dggs\<close> returned. A dataset with no variable
  \<open>U236GF\<close> raises AttributeError; \<open>explore()\<close> draws a map and changes nothing.
\<close>

definition save_regridded :: "'a dataset \<Rightarrow> int \<Rightarrow> 'a zarr_store \<Rightarrow> py_error + 'a zarr_store" where
  "save_regridded regridded level fs =
     (case map_of regridded ''U236GF'' of
        None \<Rightarrow> Inl AttributeError
      | Some v \<Rightarrow>
          (let ds_regridded = squeeze (compute v)
           in Inr (to_zarr ds_regridded (save_location level) fs)))"

subsection \<open>The regridder of the module \<open>data_handling\<close>\<close>

text \<open>The error kinds the specification names.\<close>

datatype error = FileFormatError | MissingFieldError | InvalidParameterError

text \<open>
  Modelled from the spec: the check that \<open>nside\<close> is a positive power of two, part of
  \<open>regrid_to_dggs\<close>, whose module \<open>data_handling\<close> is not among the sources. The
  specification's words are "`nside` is not a positive power of two"; the powers of two
  are taken from \<open>1 = 2^0\<close> on (HEALPix level 0, twelve cells).
\<close>

function is_power_of_two :: "int \<Rightarrow> bool" where
  "is_power_of_two n =
     (if n \<le> 0 then False
      else if n = 1 then True
      else if n mod 2 \<noteq> 0 then False
      else is_power_of_two (n div 2))"
  by pat_completeness auto
termination
  by (relation "measure nat") auto

declare is_power_of_two.simps [simp del]

text \<open>
  Modelled from the spec: the supported set of interpolation methods, "an enumerated
  strategy value {bilinear, conservative, nearest}". The notebook passes the method as a
  string (\<open>method="bilinear"\<close>).
\<close>

definition supported_methods :: "string list" where
  "supported_methods = [''bilinear'', ''conservative'', ''nearest'']"

text \<open>
  Modelled from the spec: \<open>regrid_to_dggs\<close> of the module \<open>data_handling\<close>, which is
  not among the sources, after section 4.3 of the specification:
  \<^item> it "fails with InvalidParameterError if `nside` is not a positive power of two, or
    if the method is not one of the supported set";
  \<^item> the "total target cell count = 12 * nside^2";
  \<^item> "a target cell is populated only if at least `min_vertices` of its corners have
    valid overlapping source data", and is then given the value interpolated by the
    selected method;
  \<^item> "cells failing the coverage threshold are left unset (propagated as
    missing/undefined values), never silently zero-filled".

  The geometry and the interpolation are floating-point work of external libraries and
  stay parameters: \<open>valid_corners ds mask' c\<close> is the number of corners of target cell
  \<open>c\<close> with valid overlapping source data, \<open>interpolate method ds c\<close> the value the
  method gives cell \<open>c\<close>. The result lists the target cells by index; \<open>None\<close> is a
  missing value.
\<close>

definition regrid_to_dggs ::
  "('d \<Rightarrow> 'm option \<Rightarrow> nat \<Rightarrow> nat) \<Rightarrow> (string \<Rightarrow> 'd \<Rightarrow> nat \<Rightarrow> 'v) \<Rightarrow>
   'd \<Rightarrow> int \<Rightarrow> int \<Rightarrow> string \<Rightarrow> 'm option \<Rightarrow> error + 'v option list" where
  "regrid_to_dggs valid_corners interpolate ds nside min_vertices method mask' =
     (if \<not> is_power_of_two nside \<or> method \<notin> set supported_methods
      then Inl InvalidParameterError
      else Inr (map (\<lambda>c. if min_vertices \<le> int (valid_corners ds mask' c)
                           then Some (interpolate method ds c)
                           else None)
                    [0 ..< nat (12 * nside ^ 2)]))"

section \<open>Properties\<close>

subsection \<open>Level and number of cells\<close>

text \<open>
  A real that is a whole multiple of the spacing of the doubles around it is a double:
  rounding leaves it as it is. So are the powers of two and the naturals below \<open>2^53\<close>.
\<close>

lemma round_half_even_of_int: "round_half_even (real_of_int j) = j"
  by (simp add: round_half_even_def)

lemma to_double_exact:
  assumes "x \<noteq> 0" and "x / 2 powr (real_of_int \<lfloor>log 2 \<bar>x\<bar>\<rfloor> - 52) = real_of_int j"
  shows "to_double x = x"
proof -
  let ?u = "2 powr (real_of_int \<lfloor>log 2 \<bar>x\<bar>\<rfloor> - 52)"
  have pos: "0 < ?u" by simp
  have "to_double x = real_of_int (round_half_even (x / ?u)) * ?u"
    using assms(1) by (simp add: to_double_def Let_def)
  also have "\<dots> = real_of_int j * ?u"
    unfolding assms(2) round_half_even_of_int ..
  also have "\<dots> = (x / ?u) * ?u"
    unfolding assms(2) ..
  also have "\<dots> = x"
    using pos by simp
  finally show ?thesis .
qed

lemma to_double_power_of_two: "to_double (2 ^ k) = 2 ^ k"
proof (rule to_double_exact)
  show "(2::real) ^ k \<noteq> 0" by simp
next
  have e: "\<lfloor>log 2 \<bar>(2::real) ^ k\<bar>\<rfloor> = int k"
    by (simp add: log_nat_power)
  have "(2::real) ^ k / 2 powr (real k - 52) = 2 powr real k / 2 powr (real k - 52)"
    by (simp add: powr_realpow)
  also have "\<dots> = 2 powr 52"
    by (simp flip: powr_diff)
  also have "\<dots> = real_of_int (2 ^ 52)"
    by simp
  finally show "(2::real) ^ k / 2 powr (real_of_int \<lfloor>log 2 \<bar>(2::real) ^ k\<bar>\<rfloor> - 52) = real_of_int (2 ^ 52)"
    unfolding e by simp
qed

lemma to_double_small_nat:
  assumes "k < 2 ^ 53"
  shows "to_double (real k) = real k"
proof (cases "k = 0")
  case True
  then show ?thesis by (simp add: to_double_def)
next
  case False
  let ?e = "\<lfloor>log 2 \<bar>real k\<bar>\<rfloor>"
  have k1: "1 \<le> real k" using False by simp
  have "real k < 2 ^ 53"
    using assms by (metis of_nat_less_iff of_nat_numeral of_nat_power)
  then have "real k < 2 powr 53"
    by simp
  then have "log 2 (real k) < 53"
    using k1 by (subst log_less_iff) simp_all
  then have hi: "?e \<le> 52"
    by (simp add: floor_le_iff) 
  define m where "m = nat (52 - ?e)"
  have m: "real_of_int (52 - ?e) = real m"
    using hi by (simp add: m_def)
  have "real k / 2 powr (real_of_int ?e - 52) = real k * 2 powr (real_of_int (52 - ?e))"
    by (simp add: powr_diff field_simps)
  also have "\<dots> = real k * 2 ^ m"
    unfolding m by (simp add: powr_realpow)
  also have "\<dots> = real_of_int (int k * 2 ^ m)"
    by simp
  finally have "real k / 2 powr (real_of_int ?e - 52) = real_of_int (int k * 2 ^ m)" .
  moreover have "real k \<noteq> 0" using False by simp
  ultimately show ?thesis
    by (rule to_double_exact [rotated])
qed


lemma np_log2_power_of_two:
  assumes "k < 64"
  shows "np_log2 (2 ^ k) = Inr (Finite (real k))"
proof -
  have "(2::int) ^ k < 2 ^ 64"
    by (rule power_strict_increasing) (use assms in simp_all)
  then have hi: "\<not> (2::int) ^ 64 \<le> 2 ^ k"
    by linarith
  have pos: "(0::int) < 2 ^ k"
    by simp
  have "- ((2::int) ^ 63) < 0"
    by simp
  with pos have lo: "\<not> (2::int) ^ k < - (2 ^ 63)"
    by linarith
  have "k < 2 ^ 53"
    using assms by simp
  then have level: "to_double (real k) = real k"
    by (rule to_double_small_nat)
  have "to_double (log 2 (to_double (real_of_int (2 ^ k)))) = to_double (log 2 (2 ^ k))"
    by (simp add: to_double_power_of_two)
  also have "\<dots> = real k"
    by (simp add: log_nat_power level)
  finally have "to_double (log 2 (to_double (real_of_int (2 ^ k)))) = real k" .
  then show ?thesis
    unfolding np_log2_def using lo hi by simp
qed

text \<open>
  C1 (as amended). For every \<open>nside = 2^k\<close> with \<open>k < 64\<close>, the arguments numpy
  accepts as machine integers, the computed level is exactly \<open>k = log2(nside)\<close>, and the
  number of cells is \<open>12 * nside^2\<close>. Neither rounding loses anything there: \<open>2^k\<close>
  is a double, and so is \<open>k\<close>.
\<close>

theorem healpy_grid_level_power_of_two:
  assumes "k < 64"
  shows "healpy_grid_level (2 ^ k) = Inr (int k) \<and> number_of_cells (2 ^ k) = 12 * (2 ^ k) ^ 2"
  using np_log2_power_of_two [OF assms]
  by (simp add: healpy_grid_level_def number_of_cells_def)

text \<open>The notebook's own value: \<open>nside = 32\<close> gives level 5 and 12288 cells.\<close>

theorem healpy_grid_level_32:
  "(5::nat) < 64 \<and> healpy_grid_level 32 = Inr 5 \<and> number_of_cells 32 = 12288"
  using healpy_grid_level_power_of_two [of 5] by simp

text \<open>
  At \<open>nside = 2^64\<close>, a power of two, no level is computed: \<open>np.log2\<close> raises.
\<close>

theorem healpy_grid_level_two_to_64:
  "healpy_grid_level (2 ^ 64) = Inl TypeError \<and> healpy_grid_level (2 ^ 64) \<noteq> Inr 64"
  by (simp add: healpy_grid_level_def np_log2_def)

text \<open>
  Away from the powers of two the doubles show, and the level is not the floor of the
  exact logarithm: \<open>2^64 - 1\<close> and \<open>2^63 - 1\<close> are rounded to \<open>2^64\<close> and \<open>2^63\<close> when
  they become doubles, and the logarithm of \<open>2^49 - 1\<close> lies within half a spacing of
  49 and is rounded to it. The levels are 64, 63 and 49.
\<close>

lemma to_double_uint64_max: "to_double (real_of_int (2 ^ 64 - 1)) = 2 ^ 64"
proof -
  let ?x = "real_of_int (2 ^ 64 - 1)"
  have x: "?x = 2 ^ 64 - 1" by simp
  have "63 \<le> log 2 ?x"
    by (subst le_log_iff) simp_all
  moreover have "log 2 ?x < 64"
    by (subst log_less_iff) simp_all
  ultimately have e: "\<lfloor>log 2 \<bar>?x\<bar>\<rfloor> = 63"
    by (simp add: floor_eq_iff)
  have q: "?x / 2 powr (real_of_int 63 - 52) = 2 ^ 53 - 1 / 2 ^ 11"
    by simp
  have fl: "\<lfloor>(2::real) ^ 53 - 1 / 2 ^ 11\<rfloor> = 2 ^ 53 - 1"
    by (simp add: floor_eq_iff)
  have "round_half_even (2 ^ 53 - 1 / 2 ^ 11) = 2 ^ 53"
    unfolding round_half_even_def Let_def fl by simp
  then show ?thesis
    unfolding to_double_def Let_def e q by simp
qed

lemma healpy_grid_level_uint64_max: "healpy_grid_level (2 ^ 64 - 1) = Inr 64"
proof -
  have "to_double (64::real) = 64"
    using to_double_small_nat [of 64] by simp
  moreover have "log 2 ((2::real) ^ 64) = 64"
    by (simp only: log_nat_power [of 2 2 64]) simp
  ultimately have "to_double (log 2 (to_double (real_of_int (2 ^ 64 - 1)))) = 64"
    unfolding to_double_uint64_max by simp
  then show ?thesis
    by (simp add: healpy_grid_level_def np_log2_def)
qed

lemma to_double_int64_max: "to_double (real_of_int (2 ^ 63 - 1)) = 2 ^ 63"
proof -
  let ?x = "real_of_int (2 ^ 63 - 1)"
  have "62 \<le> log 2 ?x"
    by (subst le_log_iff) simp_all
  moreover have "log 2 ?x < 63"
    by (subst log_less_iff) simp_all
  ultimately have e: "\<lfloor>log 2 \<bar>?x\<bar>\<rfloor> = 62"
    by (simp add: floor_eq_iff)
  have q: "?x / 2 powr (real_of_int 62 - 52) = 2 ^ 53 - 1 / 2 ^ 10"
    by simp
  have fl: "\<lfloor>(2::real) ^ 53 - 1 / 2 ^ 10\<rfloor> = 2 ^ 53 - 1"
    by (simp add: floor_eq_iff)
  have "round_half_even (2 ^ 53 - 1 / 2 ^ 10) = 2 ^ 53"
    unfolding round_half_even_def Let_def fl by simp
  then show ?thesis
    unfolding to_double_def Let_def e q by simp
qed

lemma healpy_grid_level_int64_max: "healpy_grid_level (2 ^ 63 - 1) = Inr 63"
proof -
  have "to_double (63::real) = 63"
    using to_double_small_nat [of 63] by simp
  moreover have "log 2 ((2::real) ^ 63) = 63"
    by (simp only: log_nat_power [of 2 2 63]) simp
  ultimately have "to_double (log 2 (to_double (real_of_int (2 ^ 63 - 1)))) = 63"
    unfolding to_double_int64_max by simp
  then show ?thesis
    by (simp add: healpy_grid_level_def np_log2_def)
qed

lemma round_half_even_up:
  assumes "real_of_int n - 1 / 2 < x" and "x < real_of_int n"
  shows "round_half_even x = n"
proof -
  have fl: "\<lfloor>x\<rfloor> = n - 1"
    using assms by (simp add: floor_eq_iff)
  have "1 / 2 < x - real_of_int (n - 1)"
    using assms(1) by simp
  then show ?thesis
    unfolding round_half_even_def Let_def fl by simp
qed

lemma even_power_lower_bound:
  fixes a :: real
  shows "1 + real n * (- 2 * a + a ^ 2) \<le> (1 - a) ^ (2 * n)"
proof -
  have sq: "1 + (- 2 * a + a ^ 2) = (1 - a) ^ 2"
    by (simp add: power2_eq_square algebra_simps)
  have "- 1 \<le> - 2 * a + a ^ 2"
    using zero_le_power2 [of "1 - a"] unfolding sq [symmetric] by linarith
  then have "1 + real n * (- 2 * a + a ^ 2) \<le> (1 + (- 2 * a + a ^ 2)) ^ n"
    by (rule Bernoulli_inequality)
  also have "\<dots> = (1 - a) ^ (2 * n)"
    unfolding sq by (simp add: power_mult)
  finally show ?thesis .
qed

lemma root_lower_bound:
  fixes y :: real
  assumes "0 < y" and "0 < n" and "1 / 2 < y ^ n"
  shows "2 powr (- (1 / real n)) < y"
proof -
  have "(1 / 2) powr (1 / real n) < (y ^ n) powr (1 / real n)"
    using assms by (intro powr_less_mono2) simp_all
  also have "(y ^ n) powr (1 / real n) = (y powr real n) powr (1 / real n)"
    using assms(1) by (simp only: powr_realpow)
  also have "\<dots> = y powr (real n * (1 / real n))"
    by (simp only: powr_powr)
  also have "\<dots> = y"
    using assms by simp
  finally have "(1 / 2) powr (1 / real n) < y" .
  moreover have "(1 / 2) powr (1 / real n) = 2 powr (- (1 / real n))"
    by (simp add: powr_minus powr_divide inverse_eq_divide)
  ultimately show ?thesis
    by simp
qed


lemma log2_below_two_to_49_less: "log 2 (2 ^ 49 - 1) < 49"
  by (subst log_less_iff) simp_all

lemma log2_below_two_to_49_greater: "49 - 1 / 2 ^ 48 < log 2 (2 ^ 49 - 1)"
proof -
  define N :: nat where "N = 2 ^ 47"
  define y :: real where "y = 1 - 1 / 2 ^ 49"
  have N: "real N = 2 ^ 47"
    by (simp add: N_def)
  have N2: "real (2 * N) = 2 ^ 48"
    by (simp add: N)
  have "0 < N"
    by (simp add: N_def)
  have "1 / 2 < 1 + real N * (- 2 * (1 / 2 ^ 49) + (1 / 2 ^ 49) ^ 2 :: real)"
    unfolding N by simp
  also have "\<dots> \<le> y ^ (2 * N)"
    unfolding y_def by (rule even_power_lower_bound)
  finally have "1 / 2 < y ^ (2 * N)" .
  moreover have "0 < y"
    by (simp add: y_def)
  moreover have "0 < 2 * N"
    using \<open>0 < N\<close> by simp
  ultimately have "2 powr (- (1 / real (2 * N))) < y"
    by (rule root_lower_bound [rotated 2])
  then have "2 powr (- (1 / 2 ^ 48)) < y"
    unfolding N2 .
  then have "2 powr 49 * 2 powr (- (1 / 2 ^ 48)) < 2 powr 49 * y"
    by simp
  moreover have "(2::real) powr 49 * 2 powr (- (1 / 2 ^ 48)) = 2 powr (49 + - (1 / 2 ^ 48))"
    by (rule powr_add [symmetric])
  moreover have "2 powr 49 * y = 2 ^ 49 - 1"
    by (simp add: y_def)
  ultimately have "(2::real) powr (49 + - (1 / 2 ^ 48)) < 2 ^ 49 - 1"
    by simp
  then have "(2::real) powr (49 - 1 / 2 ^ 48) < 2 ^ 49 - 1"
    by simp
  then show ?thesis
    by (subst less_log_iff) simp_all
qed


lemma healpy_grid_level_below_two_to_49: "healpy_grid_level (2 ^ 49 - 1) = Inr 49"
proof -
  define L :: real where "L = log 2 (2 ^ 49 - 1)"
  have conv: "to_double (real_of_int (2 ^ 49 - 1)) = 2 ^ 49 - 1"
    using to_double_small_nat [of "2 ^ 49 - 1"] by simp
  have lo: "49 - 1 / 2 ^ 48 < L"
    unfolding L_def by (rule log2_below_two_to_49_greater)
  have hi: "L < 49"
    unfolding L_def by (rule log2_below_two_to_49_less)
  have Lpos: "0 < L" and L32: "2 powr 5 \<le> L" and L64: "L < 2 powr 6"
    using lo hi by simp_all
  have "5 \<le> log 2 L"
    using L32 Lpos by (subst le_log_iff) simp_all
  moreover have "log 2 L < 6"
    using L64 Lpos by (subst log_less_iff) simp_all
  ultimately have e: "\<lfloor>log 2 \<bar>L\<bar>\<rfloor> = 5"
    using Lpos by (simp add: floor_eq_iff)
  have ulp: "2 powr (real_of_int 5 - 52) = 1 / 2 ^ 47"
  proof -
    have "2 powr (real_of_int 5 - 52) = 2 powr (- 47)"
      by simp
    also have "\<dots> = 1 / 2 powr 47"
      by (simp only: powr_minus_divide)
    also have "\<dots> = 1 / 2 ^ 47"
      by simp
    finally show ?thesis .
  qed
  have "round_half_even (L / (1 / 2 ^ 47)) = 49 * 2 ^ 47"
  proof (rule round_half_even_up)
    show "real_of_int (49 * 2 ^ 47) - 1 / 2 < L / (1 / 2 ^ 47)"
      using lo by simp
    show "L / (1 / 2 ^ 47) < real_of_int (49 * 2 ^ 47)"
      using hi by simp
  qed
  moreover have "L \<noteq> 0"
    using Lpos by simp
  ultimately have "to_double L = 49"
    unfolding to_double_def Let_def e ulp by simp
  then have "to_double (log 2 (to_double (real_of_int (2 ^ 49 - 1)))) = 49"
    unfolding conv L_def .
  then show ?thesis
    by (simp add: healpy_grid_level_def np_log2_def)
qed

subsection \<open>Squeezing before the store is written\<close>

lemma squeeze_sizes:
  "sizes (squeeze a) = filter (\<lambda>(d, s). d \<notin> set (get_squeeze_dims a)) (sizes a)"
  by (simp add: squeeze_def isel_zero_def)

lemma squeeze_data: "data (squeeze a) = data a"
  by (simp add: squeeze_def isel_zero_def)

lemma singleton_in_squeeze_dims:
  "(d, 1) \<in> set (sizes a) \<Longrightarrow> d \<in> set (get_squeeze_dims a)"
  by (force simp: get_squeeze_dims_def)

lemma squeeze_no_singleton:
  assumes "(d, s) \<in> set (sizes (squeeze a))"
  shows "s \<noteq> 1"
proof
  assume "s = 1"
  with assms have "(d, 1) \<in> set (sizes a)" and "d \<notin> set (get_squeeze_dims a)"
    by (auto simp: squeeze_sizes)
  then show False
    using singleton_in_squeeze_dims by blast
qed

lemma squeeze_removes_dim:
  assumes "(d, 1) \<in> set (sizes a)"
  shows "d \<notin> fst ` set (sizes (squeeze a))"
  using singleton_in_squeeze_dims [OF assms] by (auto simp: squeeze_sizes)

lemma squeeze_coords_removes_dim:
  assumes "(d, 1) \<in> set (sizes a)" and "(c, x) \<in> set (coords (squeeze a))"
  shows "d \<notin> set (coord_dims x)"
  using singleton_in_squeeze_dims [OF assms(1)] assms(2)
  by (auto simp: squeeze_def isel_zero_def)

text \<open>
  C9. When cells 29 to 32 run, the array written under \<open>save_location\<close> is the variable
  \<open>U236GF\<close> of the regridded dataset squeezed: every dimension of length one of that
  variable is gone from the written array's dimensions and from the dimensions of each
  of its coordinates, no dimension of length one is left, the other dimensions stay in
  order, and the values are the same.
\<close>

theorem to_zarr_writes_squeezed:
  assumes "save_regridded regridded level fs = Inr fs'"
  shows "\<exists>v w. map_of regridded ''U236GF'' = Some v
           \<and> fs' (save_location level) = Some w
           \<and> (\<forall>(d, s) \<in> set (sizes v). s = 1 \<longrightarrow>
                 d \<notin> fst ` set (sizes w) \<and> (\<forall>(c, x) \<in> set (coords w). d \<notin> set (coord_dims x)))
           \<and> (\<forall>(d, s) \<in> set (sizes w). s \<noteq> 1)
           \<and> sizes w = filter (\<lambda>(d, s). d \<notin> set (get_squeeze_dims v)) (sizes v)
           \<and> data w = data v"
proof -
  from assms obtain v where v: "map_of regridded ''U236GF'' = Some v"
    and fs': "fs' = to_zarr (squeeze (compute v)) (save_location level) fs"
    by (auto simp: save_regridded_def split: option.splits)
  let ?w = "squeeze v"
  have stored: "fs' (save_location level) = Some ?w"
    by (simp add: fs' to_zarr_def compute_def)
  have gone: "\<forall>(d, s) \<in> set (sizes v). s = 1 \<longrightarrow>
      d \<notin> fst ` set (sizes ?w) \<and> (\<forall>(c, x) \<in> set (coords ?w). d \<notin> set (coord_dims x))"
    using squeeze_removes_dim [of _ v] squeeze_coords_removes_dim [of _ v] by blast
  have none_left: "\<forall>(d, s) \<in> set (sizes ?w). s \<noteq> 1"
    using squeeze_no_singleton [of _ _ v] by blast
  from v stored gone none_left squeeze_sizes [of v] squeeze_data [of v]
  show ?thesis by blast
qed


text \<open>
  A field with two time steps, one vertical level and three cells: the level is gone
  from the array stored under the level-5 path, the six values are there.
\<close>

theorem to_zarr_writes_squeezed_example:
  "\<exists>fs' w.
     save_regridded
       [(''U236GF'',
         \<lparr>array_name = ''U236GF'',
          sizes = [(''time'', 2), (''sigma'', 1), (''cells'', 3)],
          data = [1, 2, 3, 4, 5, 6 :: int],
          coords = [(''sigma'', \<lparr>coord_dims = [''sigma''], coord_values = [0]\<rparr>)]\<rparr>)]
       5 Map.empty = Inr fs'
     \<and> fs' ''CS1-nird/data/U236GF-healpix-lvl-5.zarr'' = Some w
     \<and> sizes w = [(''time'', 2), (''cells'', 3)]
     \<and> data w = [1, 2, 3, 4, 5, 6]"
proof -
  let ?A = "\<lparr>array_name = ''U236GF'',
          sizes = [(''time'', 2), (''sigma'', 1), (''cells'', 3)],
          data = [1, 2, 3, 4, 5, 6 :: int],
          coords = [(''sigma'', \<lparr>coord_dims = [''sigma''], coord_values = [0]\<rparr>)]\<rparr>"
  let ?fs = "to_zarr (squeeze ?A) (save_location 5) Map.empty"
  have run: "save_regridded [(''U236GF'', ?A)] 5 Map.empty = Inr ?fs"
    by (simp add: save_regridded_def compute_def)
  from to_zarr_writes_squeezed [OF run] obtain v w
    where v: "map_of [(''U236GF'', ?A)] ''U236GF'' = Some v"
      and w: "?fs (save_location 5) = Some w"
      and sz: "sizes w = filter (\<lambda>(d, s). d \<notin> set (get_squeeze_dims v)) (sizes v)"
      and d: "data w = data v"
    by blast
  from v have veq: "v = ?A"
    by simp
  have loc: "save_location 5 = ''CS1-nird/data/U236GF-healpix-lvl-5.zarr''"
    by (simp add: save_location_def py_str_def digits.simps)
  have "sizes w = [(''time'', 2), (''cells'', 3)]"
    unfolding sz veq by (simp add: get_squeeze_dims_def)
  moreover have "data w = [1, 2, 3, 4, 5, 6]"
    unfolding d veq by simp
  moreover have "?fs ''CS1-nird/data/U236GF-healpix-lvl-5.zarr'' = Some w"
    using w unfolding loc .
  ultimately show ?thesis
    using run by blast
qed


subsection \<open>The regridder\<close>

lemma power_of_two_is_power_of_two: "is_power_of_two (2 ^ k)"
proof (induction k)
  case 0
  show ?case by (simp add: is_power_of_two.simps)
next
  case (Suc k)
  have "(2::int) ^ k \<ge> 1" by simp
  then have "(2::int) * 2 ^ k \<noteq> 1" and "\<not> (2::int) * 2 ^ k \<le> 0"
    by linarith+
  with Suc show ?case
    by (subst is_power_of_two.simps) simp
qed

lemma is_power_of_two_is_power: "is_power_of_two n \<Longrightarrow> \<exists>k. n = 2 ^ k"
proof (induction n rule: is_power_of_two.induct)
  case (1 n)
  from "1.prems" have pos: "\<not> n \<le> 0"
    by (subst (asm) is_power_of_two.simps) (simp split: if_splits)
  show ?case
  proof (cases "n = 1")
    case True
    then have "n = 2 ^ 0" by simp
    then show ?thesis by blast
  next
    case False
    from "1.prems" pos False have even: "\<not> n mod 2 \<noteq> 0" and half: "is_power_of_two (n div 2)"
      by (subst (asm) is_power_of_two.simps, simp split: if_splits)+
    from "1.IH" [OF pos False even half] obtain k where k: "n div 2 = 2 ^ k"
      by blast
    from even have "n = 2 * (n div 2)"
      by presburger
    with k have "n = 2 ^ Suc k"
      by simp
    then show ?thesis by blast
  qed
qed

lemma is_power_of_two_iff: "is_power_of_two n \<longleftrightarrow> (\<exists>k. n = 2 ^ k)"
  using is_power_of_two_is_power power_of_two_is_power_of_two by blast


lemma regrid_to_dggs_valid:
  assumes "is_power_of_two nside" and "method \<in> set supported_methods"
  shows "regrid_to_dggs valid_corners interpolate ds nside min_vertices method mask' =
         Inr (map (\<lambda>c. if min_vertices \<le> int (valid_corners ds mask' c)
                        then Some (interpolate method ds c)
                        else None)
                  [0 ..< nat (12 * nside ^ 2)])"
  using assms by (simp add: regrid_to_dggs_def)

text \<open>
  C2. For every input dataset, every \<open>nside\<close> that is a power of two and every
  supported method, the regridder returns a cell set with exactly \<open>12 * nside^2\<close> slots,
  and every target cell with fewer than \<open>min_vertices\<close> valid corners holds the missing
  value, which is not the value zero.
\<close>

theorem regrid_to_dggs_cell_slots:
  fixes interpolate :: "string \<Rightarrow> 'd \<Rightarrow> nat \<Rightarrow> 'v::zero"
  assumes "nside = 2 ^ k" and "method \<in> set supported_methods"
  shows "\<exists>cells.
           regrid_to_dggs valid_corners interpolate ds nside min_vertices method mask' = Inr cells
         \<and> int (length cells) = 12 * nside ^ 2
         \<and> (\<forall>c < length cells. int (valid_corners ds mask' c) < min_vertices \<longrightarrow>
               cells ! c = None \<and> cells ! c \<noteq> Some 0)"
proof -
  let ?cells = "map (\<lambda>c. if min_vertices \<le> int (valid_corners ds mask' c)
                          then Some (interpolate method ds c)
                          else None)
                    [0 ..< nat (12 * nside ^ 2)]"
  from assms(1) have "is_power_of_two nside"
    by (simp add: power_of_two_is_power_of_two)
  then have run: "regrid_to_dggs valid_corners interpolate ds nside min_vertices method mask' =
      Inr ?cells"
    using assms(2) by (rule regrid_to_dggs_valid)
  have len: "int (length ?cells) = 12 * nside ^ 2"
    by simp
  have missing: "\<forall>c < length ?cells. int (valid_corners ds mask' c) < min_vertices \<longrightarrow>
      ?cells ! c = None \<and> ?cells ! c \<noteq> Some 0"
    by simp
  from run len missing show ?thesis
    by blast
qed

text \<open>
  At \<open>nside = 2\<close> there are 48 slots; a cell with no valid corner is missing under
  \<open>min_vertices = 1\<close>.
\<close>

theorem regrid_to_dggs_cell_slots_example:
  "\<exists>cells.
     regrid_to_dggs (\<lambda>ds m c. if c < 3 then 0 else 4) (\<lambda>method ds c. (7::int)) ()
       2 1 ''bilinear'' (None :: unit option) = Inr cells
   \<and> length cells = 48
   \<and> cells ! 0 = None"
proof -
  have nside: "(2::int) = 2 ^ 1"
    by simp
  have supported: "''bilinear'' \<in> set supported_methods"
    by (simp add: supported_methods_def)
  have "\<exists>cells.
      regrid_to_dggs (\<lambda>ds m c. if c < 3 then 0 else 4) (\<lambda>method ds c. (7::int)) ()
        2 1 ''bilinear'' (None :: unit option) = Inr cells
    \<and> int (length cells) = 12 * 2 ^ 2
    \<and> (\<forall>c < length cells. int (if c < 3 then 0 else 4) < 1 \<longrightarrow>
          cells ! c = None \<and> cells ! c \<noteq> Some 0)"
    by (rule regrid_to_dggs_cell_slots [OF nside supported])
  then obtain cells
    where run: "regrid_to_dggs (\<lambda>ds m c. if c < 3 then 0 else 4) (\<lambda>method ds c. (7::int)) ()
        2 1 ''bilinear'' (None :: unit option) = Inr cells"
      and len: "int (length cells) = 12 * 2 ^ 2"
      and missing: "\<forall>c < length cells. int (if c < 3 then 0 else 4) < 1 \<longrightarrow>
          cells ! c = None \<and> cells ! c \<noteq> Some 0"
    by blast
  from len have len48: "length cells = 48"
    by simp
  with missing have "cells ! 0 = None"
    by simp
  with run len48 show ?thesis
    by blast
qed

text \<open>
  C7. The regridder fails with InvalidParameterError exactly when \<open>nside\<close> is not a
  power of two (from \<open>2^0\<close> on) or the method is none of bilinear, conservative and
  nearest; it returns a cell set exactly when neither is the case, so a failing call
  produces none.
\<close>

theorem regrid_to_dggs_invalid_parameter:
  "(regrid_to_dggs valid_corners interpolate ds nside min_vertices method mask' =
      Inl InvalidParameterError)
     = ((\<nexists>k. nside = 2 ^ k) \<or> method \<notin> {''bilinear'', ''conservative'', ''nearest''})
   \<and> (\<exists>cells. regrid_to_dggs valid_corners interpolate ds nside min_vertices method mask' =
        Inr cells)
     = (\<not> ((\<nexists>k. nside = 2 ^ k) \<or> method \<notin> {''bilinear'', ''conservative'', ''nearest''}))"
proof -
  have methods: "set supported_methods = {''bilinear'', ''conservative'', ''nearest''}"
    by (simp add: supported_methods_def)
  show ?thesis
    unfolding regrid_to_dggs_def is_power_of_two_iff methods by auto
qed

text \<open>
  \<open>nside = 12\<close> is refused, and so is the method cubic at \<open>nside = 32\<close>; the notebook's
  own call, \<open>nside = 32\<close> with the bilinear method, returns a cell set.
\<close>

theorem regrid_to_dggs_invalid_parameter_example:
  "regrid_to_dggs (\<lambda>ds m c. 4) (\<lambda>method ds c. (7::int)) () 12 1 ''bilinear'' (None :: unit option)
     = Inl InvalidParameterError
   \<and> regrid_to_dggs (\<lambda>ds m c. 4) (\<lambda>method ds c. (7::int)) () 32 1 ''cubic'' (None :: unit option)
     = Inl InvalidParameterError
   \<and> (\<exists>cells. regrid_to_dggs (\<lambda>ds m c. 4) (\<lambda>method ds c. (7::int)) () 32 1 ''bilinear''
        (None :: unit option) = Inr cells)"
proof -
  have "\<exists>k. (32::int) = 2 ^ k"
  proof
    show "(32::int) = 2 ^ 5" by simp
  qed
  moreover have "\<nexists>k. (12::int) = 2 ^ k"
    using is_power_of_two_iff [of 12] by (simp add: is_power_of_two.simps)
  ultimately show ?thesis
    using regrid_to_dggs_invalid_parameter
        [of "\<lambda>ds m c. 4" "\<lambda>method ds c. (7::int)" "()" 12 1 "''bilinear''" "None :: unit option"]
      regrid_to_dggs_invalid_parameter
        [of "\<lambda>ds m c. 4" "\<lambda>method ds c. (7::int)" "()" 32 1 "''cubic''" "None :: unit option"]
      regrid_to_dggs_invalid_parameter
        [of "\<lambda>ds m c. 4" "\<lambda>method ds c. (7::int)" "()" 32 1 "''bilinear''" "None :: unit option"]
    by simp
qed

end
